theory Spec2Isabelle
  imports Main
begin

section \<open>Data model\<close>

text \<open>
  A position is a pair of Python integers, a move one of the five strings the framework
  uses.  Every Python exception that the modelled code can raise is a value of
  \<open>error\<close>; a function that can raise returns \<open>error + 'a\<close> (\<open>Inl\<close> the exception).
  A function that runs the search can moreover fail to return: its result is an option of
  that sum, \<open>None\<close> meaning that the search loop runs forever.
\<close>

type_synonym pos = "int \<times> int"

datatype action = North | South | East | West | Stop

datatype error = ValueError | IndexError | UnboundLocalError | TypeError

text \<open>
  The board oracle: what \<open>game_state\<close> and the \<open>CaptureAgent\<close> base class answer during one
  turn.  \<open>enemy_positions\<close> lists \<open>game_state.get_agent_position(i)\<close> for \<open>i\<close> in
  \<open>agent.get_opponents(game_state)\<close>, in that order (\<open>None\<close> for an enemy out of sight);
  \<open>legal_actions_own p\<close> is what \<open>get_legal_actions_own\<close> answers for position \<open>p\<close>;
  \<open>food\<close> and \<open>food_defending\<close> are the grids of \<open>agent.get_food\<close> and
  \<open>agent.get_food_you_are_defending\<close>, a list of columns; \<open>rnd_food\<close> and \<open>rnd_move\<close> are
  the two draws of \<open>random.choice\<close> a turn can make; \<open>set_order\<close> says which element
  of a Python set comes first when the set is listed.
\<close>

record env =
  red :: bool
  width :: int
  height :: int
  walls :: "int \<Rightarrow> int \<Rightarrow> bool"
  my_position :: pos
  my_initial_position :: pos
  initial_enemy_position :: pos
  enemy_positions :: "pos option list"
  legal_actions :: "action list"
  legal_actions_own :: "pos \<Rightarrow> action list"
  food :: "bool list list"
  food_defending :: "bool list list"
  capsules :: "pos list"
  capsules_defending :: "pos list"
  maze_distance :: "pos \<Rightarrow> pos \<Rightarrow> int"
  rnd_food :: nat
  rnd_move :: nat
  set_order :: nat

section \<open>The priority queue of the framework\<close>

text \<open>
  Modelled from the spec: \<open>util.PriorityQueue\<close>, the framework's queue that
  \<open>aStarSearch\<close> imports (it is not part of the repository).  The spec's contract is a
  min-priority queue whose \<open>update\<close> replaces an item that is already queued when the new
  key is lower, does nothing when the key is higher or equal, and pushes otherwise.  An
  entry is \<open>(priority, count, item)\<close>, \<open>count\<close> the number of pushes before it, so that
  entries of equal priority leave in the order they came; the heap is kept as the list of
  its entries and \<open>pop\<close> takes the least one.  The items \<open>aStarSearch\<close> queues are the
  triples (position, actions, cost).
\<close>

type_synonym item = "pos \<times> action list \<times> int"

type_synonym entry = "int \<times> nat \<times> item"

record PriorityQueue =
  heap :: "entry list"
  count :: nat

definition empty_queue :: PriorityQueue where
  "empty_queue = \<lparr>heap = [], count = 0\<rparr>"

definition push :: "PriorityQueue \<Rightarrow> item \<Rightarrow> int \<Rightarrow> PriorityQueue" where
  "push q it priority = \<lparr>heap = heap q @ [(priority, count q, it)], count = count q + 1\<rparr>"

definition isEmpty :: "PriorityQueue \<Rightarrow> bool" where
  "isEmpty q = (heap q = [])"

definition entry_le :: "entry \<Rightarrow> entry \<Rightarrow> bool" where
  "entry_le a b = (fst a < fst b \<or> (fst a = fst b \<and> fst (snd a) \<le> fst (snd b)))"

fun min_entry :: "entry \<Rightarrow> entry list \<Rightarrow> entry" where
  "min_entry m [] = m"
| "min_entry m (e # es) = min_entry (if entry_le m e then m else e) es"

definition pop :: "PriorityQueue \<Rightarrow> error + (item \<times> PriorityQueue)" where
  "pop q = (case heap q of
              [] \<Rightarrow> Inl IndexError
            | e # es \<Rightarrow> (let m = min_entry e es
                        in Inr (snd (snd m), q\<lparr>heap := remove1 m (heap q)\<rparr>)))"

fun update_heap :: "entry list \<Rightarrow> item \<Rightarrow> int \<Rightarrow> entry list option" where
  "update_heap [] it priority = None"
| "update_heap ((p, c, i) # es) it priority =
     (if i = it then (if p \<le> priority then Some ((p, c, i) # es)
                      else Some (es @ [(priority, c, it)]))
      else map_option (\<lambda>r. (p, c, i) # r) (update_heap es it priority))"

definition update :: "PriorityQueue \<Rightarrow> item \<Rightarrow> int \<Rightarrow> PriorityQueue" where
  "update q it priority =
     (case update_heap (heap q) it priority of
        Some h \<Rightarrow> q\<lparr>heap := h\<rparr>
      | None \<Rightarrow> push q it priority)"

section \<open>shared.py\<close>

subsection \<open>aStarSearch\<close>

text \<open>
  What \<open>aStarSearch\<close> returns: the pair \<open>(pos, actions)\<close> when the goal is dequeued, the
  empty list when the frontier runs empty.
\<close>

datatype search_result = Found pos "action list" | NoPath

text \<open>The successor loop of lines 52 to 61: one successor per cardinal legal action.\<close>

fun successor_states :: "pos \<Rightarrow> action list \<Rightarrow> (pos \<times> action \<times> int) list" where
  "successor_states p [] = []"
| "successor_states p (a # as) =
     (case a of
        North \<Rightarrow> [((fst p, snd p + 1), a, 1)]
      | South \<Rightarrow> [((fst p, snd p - 1), a, 1)]
      | East \<Rightarrow> [((fst p + 1, snd p), a, 1)]
      | West \<Rightarrow> [((fst p - 1, snd p), a, 1)]
      | Stop \<Rightarrow> []) @ successor_states p as"

text \<open>The loop of lines 63 to 70: the priority of a successor is also its recorded cost.\<close>

fun enqueue_successors ::
  "(pos \<Rightarrow> int) \<Rightarrow> action list \<Rightarrow> int \<Rightarrow> (pos \<times> action \<times> int) list \<Rightarrow> PriorityQueue
     \<Rightarrow> PriorityQueue" where
  "enqueue_successors h actions cost_until_now [] frontier = frontier"
| "enqueue_successors h actions cost_until_now ((successor, a, stepCost) # ss) frontier =
     (let priority = cost_until_now + stepCost + h successor
      in enqueue_successors h actions cost_until_now ss
           (update frontier (successor, actions @ [a], priority) priority))"

text \<open>
  The \<open>while\<close> loop.  The goal is an option because callers pass what
  \<open>get_closest_point_in_our_field\<close> returned, which can be \<open>None\<close>: no position equals it.
\<close>

partial_function (option) astar_loop ::
  "(pos \<Rightarrow> action list) \<Rightarrow> (pos \<Rightarrow> int) \<Rightarrow> pos option \<Rightarrow> PriorityQueue \<Rightarrow> pos set
     \<Rightarrow> search_result option" where
  "astar_loop legal h food_position frontier visited_states =
     (if isEmpty frontier then Some NoPath
      else (case pop frontier of
              Inl e \<Rightarrow> Some NoPath
            | Inr ((p, actions, cost_until_now), frontier') \<Rightarrow>
                if p \<notin> visited_states then
                  (if Some p = food_position then Some (Found p actions)
                   else astar_loop legal h food_position
                          (enqueue_successors h actions cost_until_now
                             (successor_states p (legal p)) frontier')
                          (insert p visited_states))
                else astar_loop legal h food_position frontier' visited_states))"

declare astar_loop.simps [code]

definition aStarSearch ::
  "(pos \<Rightarrow> action list) \<Rightarrow> (pos \<Rightarrow> int) \<Rightarrow> pos \<Rightarrow> pos option \<Rightarrow> search_result option" where
  "aStarSearch legal h initial_position food_position =
     astar_loop legal h food_position (push empty_queue (initial_position, [], 0) 0) {}"

text \<open>
  Unpacking a search result into two variables, as every call site does
  (\<open>next_pos, next_actions = aStarSearch(...)\<close>): unpacking the empty list raises
  \<open>ValueError\<close>.  \<open>index0\<close> is \<open>xs[0]\<close>.
\<close>

definition unpack2 :: "search_result \<Rightarrow> error + (pos \<times> action list)" where
  "unpack2 r = (case r of Found p actions \<Rightarrow> Inr (p, actions) | NoPath \<Rightarrow> Inl ValueError)"

definition index0 :: "'a list \<Rightarrow> error + 'a" where
  "index0 xs = (case xs of [] \<Rightarrow> Inl IndexError | x # _ \<Rightarrow> Inr x)"

subsection \<open>Territory and columns\<close>

text \<open>\<open>int(width / 2)\<close>: the quotient truncated towards zero.\<close>

definition half_width :: "env \<Rightarrow> int" where
  "half_width g = (if 0 \<le> width g then width g div 2 else - ((- width g) div 2))"

definition in_our_field :: "env \<Rightarrow> pos \<Rightarrow> bool" where
  "in_our_field g position =
     (if red g then fst position < half_width g else fst position \<ge> half_width g)"

fun closest_point_loop :: "env \<Rightarrow> int \<Rightarrow> int list \<Rightarrow> int \<Rightarrow> pos option \<Rightarrow> pos option" where
  "closest_point_loop g x [] min_distance min_point = min_point"
| "closest_point_loop g x (y # ys) min_distance min_point =
     (if \<not> walls g x y then
        (let distance_to_point = maze_distance g (my_position g) (x, y)
         in if distance_to_point < min_distance
            then closest_point_loop g x ys distance_to_point (Some (x, y))
            else closest_point_loop g x ys min_distance min_point)
      else closest_point_loop g x ys min_distance min_point)"

definition get_closest_point_in_our_field :: "env \<Rightarrow> pos option" where
  "get_closest_point_in_our_field g =
     (let x = (if red g then half_width g - 1 else half_width g)
      in closest_point_loop g x [1 .. height g - 1] 999999 None)"

definition get_column_slice :: "int \<Rightarrow> env \<Rightarrow> int option \<Rightarrow> pos list" where
  "get_column_slice col g offset =
     (let col' = (case offset of None \<Rightarrow> col | Some d \<Rightarrow> col + d)
      in map (\<lambda>y. (col', y)) (filter (\<lambda>y. \<not> walls g col' y) [1 .. height g - 1]))"

subsection \<open>avoid_enemy_collision\<close>

definition target :: "pos \<Rightarrow> action \<Rightarrow> pos option" where
  "target p a =
     (case a of
        North \<Rightarrow> Some (fst p, snd p + 1)
      | South \<Rightarrow> Some (fst p, snd p - 1)
      | East \<Rightarrow> Some (fst p + 1, snd p)
      | West \<Rightarrow> Some (fst p - 1, snd p)
      | Stop \<Rightarrow> None)"

text \<open>Lines 132 to 142: the legal cardinal moves with the positions they lead to.\<close>

fun possible_moves :: "pos \<Rightarrow> action list \<Rightarrow> (action \<times> pos) list" where
  "possible_moves p [] = []"
| "possible_moves p (a # as) =
     (case target p a of None \<Rightarrow> [] | Some q \<Rightarrow> [(a, q)]) @ possible_moves p as"

text \<open>
  Lines 149 to 151: a \<open>for\<close> loop over the list it removes from.  Python's list iterator
  holds an index \<open>i\<close>; each round reads element \<open>i\<close> of the list as it is now and steps to
  \<open>i + 1\<close>, and \<open>remove\<close> deletes the first element equal to the one read.
\<close>

function remove_colliding ::
  "env \<Rightarrow> pos \<Rightarrow> nat \<Rightarrow> (action \<times> pos) list \<Rightarrow> (action \<times> pos) list" where
  "remove_colliding g enemy_position i ps =
     (if i < length ps then
        (if maze_distance g (snd (ps ! i)) enemy_position \<le> 1
         then remove_colliding g enemy_position (Suc i) (remove1 (ps ! i) ps)
         else remove_colliding g enemy_position (Suc i) ps)
      else ps)"
  by pat_completeness auto
termination
  by (relation "measure (\<lambda>(g, e, i, ps). length ps - i)") (auto simp: length_remove1)

declare remove_colliding.simps [simp del]

text \<open>Lines 145 to 151: the loop over the opponents.\<close>

fun filter_enemies :: "env \<Rightarrow> pos option list \<Rightarrow> (action \<times> pos) list \<Rightarrow> (action \<times> pos) list" where
  "filter_enemies g [] ps = ps"
| "filter_enemies g (e # es) ps =
     (case e of
        None \<Rightarrow> filter_enemies g es ps
      | Some enemy_position \<Rightarrow>
          if \<not> in_our_field g enemy_position
          then filter_enemies g es (remove_colliding g enemy_position 0 ps)
          else filter_enemies g es ps)"

definition surviving_moves :: "env \<Rightarrow> pos \<Rightarrow> (action \<times> pos) list" where
  "surviving_moves g current_pos =
     filter_enemies g (enemy_positions g) (possible_moves current_pos (legal_actions g))"

text \<open>\<open>random.choice\<close> with the draw \<open>r\<close>; the empty sequence raises \<open>IndexError\<close>.\<close>

definition random_choice :: "nat \<Rightarrow> 'a list \<Rightarrow> error + 'a" where
  "random_choice r xs = (if xs = [] then Inl IndexError else Inr (xs ! (r mod length xs)))"

text \<open>
  \<open>a_star_pos\<close> is assigned in one of four branches only; with any other proposal it is
  unbound, and reading it in the loop of line 155 raises \<open>UnboundLocalError\<close>.
\<close>

definition avoid_enemy_collision :: "env \<Rightarrow> pos \<Rightarrow> action \<Rightarrow> error + action" where
  "avoid_enemy_collision g current_pos next_action =
     (let a_star_pos = target current_pos next_action;
          possible_actions_and_positions = surviving_moves g current_pos
      in if length possible_actions_and_positions > 0 then
           (case a_star_pos of
              None \<Rightarrow> Inl UnboundLocalError
            | Some p \<Rightarrow>
                (case find (\<lambda>(a, position). p = position) possible_actions_and_positions of
                   Some (a, position) \<Rightarrow> Inr a
                 | None \<Rightarrow>
                     (case random_choice (rnd_move g) possible_actions_and_positions of
                        Inl e \<Rightarrow> Inl e
                      | Inr (a, position) \<Rightarrow> Inr a)))
         else Inr next_action)"

subsection \<open>Food positions\<close>

text \<open>
  \<open>isFood[i][j]\<close> on the grid, a list of columns; an index out of range raises.
\<close>

definition grid_at :: "bool list list \<Rightarrow> nat \<Rightarrow> nat \<Rightarrow> error + bool" where
  "grid_at grid i j =
     (if i < length grid \<and> j < length (grid ! i) then Inr (grid ! i ! j) else Inl IndexError)"

fun scan_cells :: "bool list list \<Rightarrow> (nat \<times> nat) list \<Rightarrow> pos list \<Rightarrow> error + pos list" where
  "scan_cells grid [] food_positions = Inr food_positions"
| "scan_cells grid ((i, j) # cells) food_positions =
     (case grid_at grid i j of
        Inl e \<Rightarrow> Inl e
      | Inr b \<Rightarrow> scan_cells grid cells
                  (if b then food_positions @ [(int i, int j)] else food_positions))"

text \<open>
  The two nested loops: \<open>j\<close> over \<open>range(0, numRows - 1)\<close>, inside it \<open>i\<close> over
  \<open>range(0, numColumns - 1)\<close>.
\<close>

definition scanned_cells :: "nat \<Rightarrow> nat \<Rightarrow> (nat \<times> nat) list" where
  "scanned_cells numRows numColumns =
     concat (map (\<lambda>j. map (\<lambda>i. (i, j)) [0 ..< numColumns - 1]) [0 ..< numRows - 1])"

definition food_positions_of :: "bool list list \<Rightarrow> pos list \<Rightarrow> error + pos list" where
  "food_positions_of food_state caps =
     (case food_state of
        [] \<Rightarrow> Inl IndexError
      | column0 # _ \<Rightarrow>
          (let numRows = length column0; numColumns = length food_state
           in case scan_cells food_state (scanned_cells numRows numColumns) [] of
                Inl e \<Rightarrow> Inl e
              | Inr food_positions \<Rightarrow> Inr (food_positions @ caps)))"

definition get_food_positions_enemy :: "env \<Rightarrow> error + pos list" where
  "get_food_positions_enemy g = food_positions_of (food g) (capsules g)"

definition get_food_positions_ours :: "env \<Rightarrow> error + pos list" where
  "get_food_positions_ours g = food_positions_of (food_defending g) (capsules_defending g)"

subsection \<open>a_star_to_food_position\<close>

definition a_star_to_food_position ::
  "env \<Rightarrow> (pos \<Rightarrow> int) \<Rightarrow> (env \<Rightarrow> error + pos list) \<Rightarrow> bool \<Rightarrow> (env \<Rightarrow> pos) option
     \<Rightarrow> (error + (pos \<times> action list)) option" where
  "a_star_to_food_position g h food_positions_function randomize initial_position_function =
     (let initial_position = (case initial_position_function of
                                None \<Rightarrow> my_position g
                              | Some f \<Rightarrow> f g)
      in case food_positions_function g of
           Inl e \<Rightarrow> Some (Inl e)
         | Inr food_positions \<Rightarrow>
             (let distances_array =
                    sort_key fst (map (\<lambda>food_position.
                       (maze_distance g initial_position food_position, food_position))
                       food_positions)
              in case (if randomize then random_choice (rnd_food g) (take 3 distances_array)
                       else index0 distances_array) of
                   Inl e \<Rightarrow> Some (Inl e)
                 | Inr (d, min_food_position) \<Rightarrow>
                     (case aStarSearch (legal_actions_own g) h (my_position g)
                             (Some min_food_position) of
                        None \<Rightarrow> None
                      | Some r \<Rightarrow> Some (unpack2 r))))"

definition get_our_position :: "env \<Rightarrow> pos" where
  "get_our_position g = my_position g"

definition get_my_initial_position :: "env \<Rightarrow> pos" where
  "get_my_initial_position g = my_initial_position g"

definition get_initial_enemy_position :: "env \<Rightarrow> pos" where
  "get_initial_enemy_position g = initial_enemy_position g"

section \<open>attackAgent.py\<close>

text \<open>
  The attributes both agents keep under the same names, then the attacker's own.  The
  class attributes are the initial values.
\<close>

record counters =
  capsules_in_last_turn :: int
  turns_with_capsule_effect :: int

record AttackAgent = counters +
  food_in_last_turn :: int
  food_eaten :: int
  first_actions :: "action list"
  already_randomized :: bool
  turn_counter :: int
  has_fled :: "int list"
  fleeing_point :: "pos option"
  turns_has_to_flee :: int
  last_fled_turn_checked :: int

definition attack_DISTANCE_FROM_ENEMY_TO_FLEE :: int where
  "attack_DISTANCE_FROM_ENEMY_TO_FLEE = 6"

definition attack_COST_HEURISTIC_ENEMY_CLOSE :: int where
  "attack_COST_HEURISTIC_ENEMY_CLOSE = 5"

definition FOOD_EATEN_TO_RETURN :: int where
  "FOOD_EATEN_TO_RETURN = 5"

definition attack_CAPSULE_EFFECT_DURATION :: int where
  "attack_CAPSULE_EFFECT_DURATION = 35"

definition TURNS_FLEEING_TOO_MUCH :: int where
  "TURNS_FLEEING_TOO_MUCH = 4"

definition TURNS_HAS_TO_FLEE :: int where
  "TURNS_HAS_TO_FLEE = 6"

definition AttackAgent_class :: AttackAgent where
  "AttackAgent_class =
     \<lparr>capsules_in_last_turn = 0, turns_with_capsule_effect = 0,
      food_in_last_turn = 0, food_eaten = 0, first_actions = [],
      already_randomized = False, turn_counter = 0, has_fled = [],
      fleeing_point = None, turns_has_to_flee = 0, last_fled_turn_checked = 0\<rparr>"

definition AttackAgent_register_initial_state :: "AttackAgent \<Rightarrow> env \<Rightarrow> error + AttackAgent" where
  "AttackAgent_register_initial_state st g =
     (case get_food_positions_enemy g of
        Inl e \<Rightarrow> Inl e
      | Inr fs \<Rightarrow> Inr (st\<lparr>food_in_last_turn := int (length fs),
                           capsules_in_last_turn := int (length (capsules g)),
                           turns_with_capsule_effect := 0\<rparr>))"

fun AttackAgent_heuristic_loop :: "env \<Rightarrow> pos \<Rightarrow> pos option list \<Rightarrow> int" where
  "AttackAgent_heuristic_loop g p [] = 1"
| "AttackAgent_heuristic_loop g p (e # es) =
     (case e of
        None \<Rightarrow> AttackAgent_heuristic_loop g p es
      | Some enemy_position \<Rightarrow>
          if \<not> in_our_field g enemy_position
             \<and> maze_distance g p enemy_position < attack_DISTANCE_FROM_ENEMY_TO_FLEE
          then attack_COST_HEURISTIC_ENEMY_CLOSE
          else AttackAgent_heuristic_loop g p es)"

definition AttackAgent_heuristic :: "env \<Rightarrow> pos \<Rightarrow> int" where
  "AttackAgent_heuristic g p = AttackAgent_heuristic_loop g p (enemy_positions g)"

definition AttackAgent_update_counters :: "AttackAgent \<Rightarrow> env \<Rightarrow> error + AttackAgent" where
  "AttackAgent_update_counters st g =
     (let st1 = st\<lparr>turn_counter := turn_counter st + 1\<rparr>;
          st2 = (if turns_has_to_flee st1 > 0
                 then st1\<lparr>turns_has_to_flee := turns_has_to_flee st1 - 1\<rparr> else st1);
          st3 = (if turns_with_capsule_effect st2 > 0
                 then st2\<lparr>turns_with_capsule_effect := turns_with_capsule_effect st2 - 1\<rparr>
                 else st2);
          st4 = (if capsules_in_last_turn st3 > int (length (capsules g))
                 then st3\<lparr>turns_with_capsule_effect := attack_CAPSULE_EFFECT_DURATION,
                          capsules_in_last_turn := int (length (capsules g))\<rparr>
                 else st3);
          st5 = (if in_our_field g (get_our_position g)
                 then st4\<lparr>food_eaten := 0\<rparr> else st4\<lparr>first_actions := []\<rparr>);
          st6 = (if already_randomized st5 \<and> get_our_position g = get_my_initial_position g
                 then st5\<lparr>first_actions := [], turns_has_to_flee := 0\<rparr> else st5)
      in case get_food_positions_enemy g of
           Inl e \<Rightarrow> Inl e
         | Inr fs \<Rightarrow>
             (let food_in_current_turn = int (length fs)
              in if food_in_current_turn < food_in_last_turn st6
                 then Inr (st6\<lparr>food_in_last_turn := food_in_current_turn,
                               food_eaten := food_eaten st6 + 1\<rparr>)
                 else Inr st6))"

text \<open>
  \<open>has_fled[-1]\<close>, \<open>has_fled[-2]\<close> and \<open>has_fled[-3]\<close> are read only when the list has
  more than four entries.
\<close>

definition from_end :: "int list \<Rightarrow> nat \<Rightarrow> int" where
  "from_end xs k = xs ! (length xs - k)"

definition has_been_fleeing_too_much :: "AttackAgent \<Rightarrow> env \<Rightarrow> AttackAgent \<times> bool" where
  "has_been_fleeing_too_much st g =
     (if in_our_field g (get_our_position g) then
        (if length (has_fled st) > 4 then
           (if from_end (has_fled st) 1 \<noteq> last_fled_turn_checked st then
              (st\<lparr>last_fled_turn_checked := from_end (has_fled st) 1\<rparr>,
               from_end (has_fled st) 1 - from_end (has_fled st) 2 \<le> TURNS_FLEEING_TOO_MUCH
               \<and> from_end (has_fled st) 2 - from_end (has_fled st) 3 \<le> TURNS_FLEEING_TOO_MUCH)
            else (st, False))
         else (st, False))
      else (st, False))"

text \<open>The loop of lines 156 to 162: any visible enemy, on either side of the board.\<close>

fun enemy_within_flee_distance :: "env \<Rightarrow> pos option list \<Rightarrow> bool" where
  "enemy_within_flee_distance g [] = False"
| "enemy_within_flee_distance g (e # es) =
     (case e of
        None \<Rightarrow> enemy_within_flee_distance g es
      | Some enemy_position \<Rightarrow>
          if maze_distance g (get_our_position g) enemy_position
               < attack_DISTANCE_FROM_ENEMY_TO_FLEE
          then True
          else enemy_within_flee_distance g es)"

text \<open>
  The loop of lines 167 to 182: the first food at distance one decides; \<open>next_action\<close>
  is unbound when that food is none of the four neighbours.  \<open>None\<close>: no food at
  distance one.
\<close>

fun nearby_food_detour :: "env \<Rightarrow> pos list \<Rightarrow> (error + action) option" where
  "nearby_food_detour g [] = None"
| "nearby_food_detour g (food_pos # fs) =
     (let x = fst (get_our_position g); y = snd (get_our_position g)
      in if maze_distance g (x, y) food_pos = 1 then
           Some (if food_pos = (x, y + 1) then Inr North
                 else if food_pos = (x, y - 1) then Inr South
                 else if food_pos = (x + 1, y) then Inr East
                 else if food_pos = (x - 1, y) then Inr West
                 else Inl UnboundLocalError)
         else nearby_food_detour g fs)"

definition decide_action_return ::
  "AttackAgent \<Rightarrow> env \<Rightarrow> (error + (AttackAgent \<times> action)) option" where
  "decide_action_return st g =
     (case aStarSearch (legal_actions_own g) (AttackAgent_heuristic g) (get_our_position g)
             (get_closest_point_in_our_field g) of
        None \<Rightarrow> None
      | Some r \<Rightarrow>
          (case unpack2 r of
             Inl e \<Rightarrow> Some (Inl e)
           | Inr (next_pos, next_actions) \<Rightarrow>
               (case (if \<not> enemy_within_flee_distance g (enemy_positions g)
                      then (case get_food_positions_enemy g of
                              Inl e \<Rightarrow> Inl e
                            | Inr fs \<Rightarrow> Inr (nearby_food_detour g fs))
                      else Inr None) of
                  Inl e \<Rightarrow> Some (Inl e)
                | Inr (Some (Inl e)) \<Rightarrow> Some (Inl e)
                | Inr (Some (Inr next_action)) \<Rightarrow> Some (Inr (st, next_action))
                | Inr None \<Rightarrow>
                    if length next_actions = 0 then Some (Inr (st, Stop))
                    else (case avoid_enemy_collision g (get_our_position g) (hd next_actions) of
                            Inl e \<Rightarrow> Some (Inl e)
                          | Inr a \<Rightarrow> Some (Inr (st, a))))))"

definition get_fleeing_point :: "AttackAgent \<Rightarrow> env \<Rightarrow> (error + pos) option" where
  "get_fleeing_point st g =
     (case a_star_to_food_position g (AttackAgent_heuristic g) get_food_positions_ours False
             (Some get_initial_enemy_position) of
        None \<Rightarrow> None
      | Some (Inl e) \<Rightarrow> Some (Inl e)
      | Some (Inr (closest_food_from_enemy, acts)) \<Rightarrow>
          (let valid_positions_in_column =
                 sort_key snd (get_column_slice (fst closest_food_from_enemy) g None)
           in if valid_positions_in_column = [] then Some (Inl IndexError)
              else (let patrol_point_1 = hd valid_positions_in_column;
                        patrol_point_2 = last valid_positions_in_column;
                        distance_to_pp_1 = maze_distance g (get_our_position g) patrol_point_1;
                        distance_to_pp_2 = maze_distance g (get_our_position g) patrol_point_2
                    in Some (Inr (if distance_to_pp_1 > distance_to_pp_2
                                  then patrol_point_1 else patrol_point_2)))))"

text \<open>
  Searching towards \<open>self.fleeing_point\<close> and taking the first move
  (\<open>_, fleeing_actions = aStarSearch(...)\<close>, \<open>return fleeing_actions[0]\<close>).
\<close>

definition first_move_towards ::
  "env \<Rightarrow> (pos \<Rightarrow> int) \<Rightarrow> pos option \<Rightarrow> (error + action) option" where
  "first_move_towards g h goal =
     (case aStarSearch (legal_actions_own g) h (get_our_position g) goal of
        None \<Rightarrow> None
      | Some r \<Rightarrow>
          (case unpack2 r of
             Inl e \<Rightarrow> Some (Inl e)
           | Inr (p, actions) \<Rightarrow> Some (index0 actions)))"

text \<open>Lines 210 to 220: the flee window is open.\<close>

definition keep_fleeing :: "AttackAgent \<Rightarrow> env \<Rightarrow> (error + (AttackAgent \<times> action)) option" where
  "keep_fleeing st g =
     (case (if fleeing_point st = Some (get_our_position g)
            then (case get_fleeing_point st g of
                    None \<Rightarrow> None
                  | Some (Inl e) \<Rightarrow> Some (Inl e)
                  | Some (Inr fp) \<Rightarrow> Some (Inr (st\<lparr>fleeing_point := Some fp\<rparr>)))
            else Some (Inr st)) of
        None \<Rightarrow> None
      | Some (Inl e) \<Rightarrow> Some (Inl e)
      | Some (Inr st1) \<Rightarrow>
          (case first_move_towards g (AttackAgent_heuristic g) (fleeing_point st1) of
             None \<Rightarrow> None
           | Some (Inl e) \<Rightarrow> Some (Inl e)
           | Some (Inr a) \<Rightarrow> Some (Inr (st1, a))))"

text \<open>Lines 223 to 236: the scripted mini-retreat.\<close>

definition mini_retreat :: "AttackAgent \<Rightarrow> env \<Rightarrow> (error + (AttackAgent \<times> action)) option" where
  "mini_retreat st g =
     (case get_food_positions_ours g of
        Inl e \<Rightarrow> Some (Inl e)
      | Inr fs \<Rightarrow>
          if length fs = 0 then Some (Inr (st, Stop))
          else (case get_fleeing_point st g of
                  None \<Rightarrow> None
                | Some (Inl e) \<Rightarrow> Some (Inl e)
                | Some (Inr fp) \<Rightarrow>
                    (let st1 = st\<lparr>fleeing_point := Some fp,
                                   turns_has_to_flee := TURNS_HAS_TO_FLEE\<rparr>
                     in case first_move_towards g (AttackAgent_heuristic g) (fleeing_point st1) of
                          None \<Rightarrow> None
                        | Some (Inl e) \<Rightarrow> Some (Inl e)
                        | Some (Inr a) \<Rightarrow> Some (Inr (st1, a)))))"

text \<open>Lines 238 to 241: to the closest enemy food, through the collision filter.\<close>

definition attack_closest_food ::
  "AttackAgent \<Rightarrow> env \<Rightarrow> (error + (AttackAgent \<times> action)) option" where
  "attack_closest_food st g =
     (case a_star_to_food_position g (AttackAgent_heuristic g) get_food_positions_enemy False
             None of
        None \<Rightarrow> None
      | Some (Inl e) \<Rightarrow> Some (Inl e)
      | Some (Inr (dest, next_actions)) \<Rightarrow>
          (case index0 next_actions of
             Inl e \<Rightarrow> Some (Inl e)
           | Inr a0 \<Rightarrow>
               (case avoid_enemy_collision g (get_our_position g) a0 of
                  Inl e \<Rightarrow> Some (Inl e)
                | Inr a \<Rightarrow> Some (Inr (st, a)))))"

text \<open>Lines 197 to 202: the opening route is planned once.\<close>

definition plan_opening :: "AttackAgent \<Rightarrow> env \<Rightarrow> (error + AttackAgent) option" where
  "plan_opening st g =
     (if length (first_actions st) = 0 \<and> \<not> already_randomized st then
        (case a_star_to_food_position g (AttackAgent_heuristic g) get_food_positions_enemy True
                None of
           None \<Rightarrow> None
         | Some (Inl e) \<Rightarrow> Some (Inl e)
         | Some (Inr (dest, actions)) \<Rightarrow>
             Some (Inr (st\<lparr>already_randomized := True, first_actions := actions\<rparr>)))
      else Some (Inr st))"

definition decide_action_attack ::
  "AttackAgent \<Rightarrow> env \<Rightarrow> (error + (AttackAgent \<times> action)) option" where
  "decide_action_attack st g =
     (case plan_opening st g of
        None \<Rightarrow> None
      | Some (Inl e) \<Rightarrow> Some (Inl e)
      | Some (Inr st1) \<Rightarrow>
          if length (first_actions st1) > 0 then
            (case avoid_enemy_collision g (get_our_position g) (hd (first_actions st1)) of
               Inl e \<Rightarrow> Some (Inl e)
             | Inr a \<Rightarrow> Some (Inr (st1\<lparr>first_actions := tl (first_actions st1)\<rparr>, a)))
          else if turns_has_to_flee st1 > 0 then keep_fleeing st1 g
          else (case has_been_fleeing_too_much st1 g of
                  (st2, too_much) \<Rightarrow>
                    if too_much then mini_retreat st2 g else attack_closest_food st2 g))"

text \<open>
  The loop of lines 269 to 293: the first visible enemy outside our field that is
  closer than the flee distance.
\<close>

fun threatening_enemy :: "env \<Rightarrow> pos option list \<Rightarrow> bool" where
  "threatening_enemy g [] = False"
| "threatening_enemy g (e # es) =
     (case e of
        None \<Rightarrow> threatening_enemy g es
      | Some enemy_position \<Rightarrow>
          if \<not> in_our_field g enemy_position
             \<and> maze_distance g (get_our_position g) enemy_position
                 < attack_DISTANCE_FROM_ENEMY_TO_FLEE
          then True
          else threatening_enemy g es)"

definition flee_home :: "AttackAgent \<Rightarrow> env \<Rightarrow> (error + (AttackAgent \<times> action)) option" where
  "flee_home st g =
     (let flee_point = get_closest_point_in_our_field g;
          st1 = st\<lparr>has_fled := has_fled st @ [turn_counter st]\<rparr>
      in case aStarSearch (legal_actions_own g) (AttackAgent_heuristic g) (get_our_position g)
                flee_point of
           None \<Rightarrow> None
         | Some r \<Rightarrow>
             (case unpack2 r of
                Inl e \<Rightarrow> Some (Inl e)
              | Inr (next_pos, next_actions) \<Rightarrow>
                  (case index0 next_actions of
                     Inl e \<Rightarrow> Some (Inl e)
                   | Inr a0 \<Rightarrow>
                       (case avoid_enemy_collision g (get_our_position g) a0 of
                          Inl e \<Rightarrow> Some (Inl e)
                        | Inr a \<Rightarrow> Some (Inr (st1, a))))))"

definition decide_action_in_enemy_field ::
  "AttackAgent \<Rightarrow> env \<Rightarrow> (error + (AttackAgent \<times> action)) option" where
  "decide_action_in_enemy_field st g =
     (if turns_with_capsule_effect st = 0 \<and> threatening_enemy g (enemy_positions g)
      then flee_home st g
      else decide_action_attack st g)"

definition AttackAgent_choose_action ::
  "AttackAgent \<Rightarrow> env \<Rightarrow> (error + (AttackAgent \<times> action)) option" where
  "AttackAgent_choose_action st g =
     (case AttackAgent_update_counters st g of
        Inl e \<Rightarrow> Some (Inl e)
      | Inr st1 \<Rightarrow>
          if food_eaten st1 > FOOD_EATEN_TO_RETURN then decide_action_return st1 g
          else (case get_food_positions_enemy g of
                  Inl e \<Rightarrow> Some (Inl e)
                | Inr fs \<Rightarrow>
                    if length fs = 0 then decide_action_return st1 g
                    else if in_our_field g (get_our_position g) then decide_action_attack st1 g
                    else decide_action_in_enemy_field st1 g))"

section \<open>defendAgent.py\<close>

record DefendAgent = counters +
  initial_actions :: "action list"
  initial_goal :: "pos option"
  last_patrolled_point :: "pos option"
  patrol_point_1 :: "pos option"
  patrol_point_2 :: "pos option"
  food_positions_in_last_turn :: "pos list option"
  eaten_food_position :: "pos option"

definition COST_HEURISTIC_CROSSING_ENEMY_FIELD :: int where
  "COST_HEURISTIC_CROSSING_ENEMY_FIELD = 5"

definition defend_CAPSULE_EFFECT_DURATION :: int where
  "defend_CAPSULE_EFFECT_DURATION = 40"

definition DefendAgent_class :: DefendAgent where
  "DefendAgent_class =
     \<lparr>capsules_in_last_turn = 0, turns_with_capsule_effect = 0,
      initial_actions = [], initial_goal = None, last_patrolled_point = None,
      patrol_point_1 = None, patrol_point_2 = None,
      food_positions_in_last_turn = None, eaten_food_position = None\<rparr>"

definition DefendAgent_heuristic :: "env \<Rightarrow> pos \<Rightarrow> int" where
  "DefendAgent_heuristic g p =
     (if \<not> in_our_field g p then COST_HEURISTIC_CROSSING_ENEMY_FIELD else 1)"

text \<open>
  \<open>food_positions_in_last_turn\<close> is a Python set; the model keeps the list of its
  elements.
\<close>

definition DefendAgent_register_initial_state :: "DefendAgent \<Rightarrow> env \<Rightarrow> error + DefendAgent" where
  "DefendAgent_register_initial_state st g =
     (case get_food_positions_ours g of
        Inl e \<Rightarrow> Inl e
      | Inr fs \<Rightarrow> Inr (st\<lparr>food_positions_in_last_turn := Some fs,
                           capsules_in_last_turn := int (length (capsules_defending g)),
                           turns_with_capsule_effect := 0\<rparr>))"

text \<open>
  \<open>get_maze_distance\<close> of a patrol point that is \<open>None\<close> raises \<open>TypeError\<close>; \<open>goal\<close> is
  unbound when no branch assigned it.
\<close>

definition do_vertical_patrol ::
  "DefendAgent \<Rightarrow> env \<Rightarrow> (error + (DefendAgent \<times> action)) option" where
  "do_vertical_patrol st g =
     (if patrol_point_1 st = None \<and> patrol_point_2 st = None then Some (Inr (st, Stop))
      else (case (patrol_point_1 st, patrol_point_2 st) of
              (Some pp1, Some pp2) \<Rightarrow>
                (let distance_to_pp_1 = maze_distance g (get_our_position g) pp1;
                     distance_to_pp_2 = maze_distance g (get_our_position g) pp2;
                     goal0 = (if last_patrolled_point st = None
                              then Some (if distance_to_pp_1 < distance_to_pp_2 then pp1 else pp2)
                              else None);
                     st1 = (if distance_to_pp_1 = 0 then st\<lparr>last_patrolled_point := Some pp1\<rparr>
                            else if distance_to_pp_2 = 0
                            then st\<lparr>last_patrolled_point := Some pp2\<rparr>
                            else st);
                     goal = (if distance_to_pp_1 = 0 then Some pp2
                             else if distance_to_pp_2 = 0 then Some pp1
                             else if last_patrolled_point st = Some pp1 then Some pp2
                             else if last_patrolled_point st = Some pp2 then Some pp1
                             else goal0)
                 in case goal of
                      None \<Rightarrow> Some (Inl UnboundLocalError)
                    | Some gl \<Rightarrow>
                        (case first_move_towards g (DefendAgent_heuristic g) (Some gl) of
                           None \<Rightarrow> None
                         | Some (Inl e) \<Rightarrow> Some (Inl e)
                         | Some (Inr a) \<Rightarrow> Some (Inr (st1, a))))
            | _ \<Rightarrow> Some (Inl TypeError)))"

definition calculate_patrol_points :: "DefendAgent \<Rightarrow> env \<Rightarrow> (error + DefendAgent) option" where
  "calculate_patrol_points st g =
     (case get_food_positions_ours g of
        Inl e \<Rightarrow> Some (Inl e)
      | Inr fs \<Rightarrow>
          if length fs > 0 then
            (case a_star_to_food_position g (DefendAgent_heuristic g) get_food_positions_ours
                    False (Some get_initial_enemy_position) of
               None \<Rightarrow> None
             | Some (Inl e) \<Rightarrow> Some (Inl e)
             | Some (Inr (goal, acts)) \<Rightarrow>
                 (case aStarSearch (legal_actions_own g) (DefendAgent_heuristic g)
                         (get_our_position g) (Some goal) of
                    None \<Rightarrow> None
                  | Some r \<Rightarrow>
                      (case unpack2 r of
                         Inl e \<Rightarrow> Some (Inl e)
                       | Inr (p, actions) \<Rightarrow>
                           (let valid_positions_in_column =
                                  sort_key snd (get_column_slice (fst goal) g None)
                            in if valid_positions_in_column = [] then Some (Inl IndexError)
                               else Some (Inr (st\<lparr>initial_goal := Some goal,
                                      initial_actions := actions,
                                      patrol_point_1 := Some (hd valid_positions_in_column),
                                      patrol_point_2 := Some (last valid_positions_in_column)\<rparr>))))))
          else Some (Inr st))"

text \<open>Lines 136 to 144: the capsule counter.\<close>

definition track_capsule_effect :: "DefendAgent \<Rightarrow> env \<Rightarrow> DefendAgent" where
  "track_capsule_effect st g =
     (if capsules_in_last_turn st > int (length (capsules_defending g))
      then st\<lparr>turns_with_capsule_effect := defend_CAPSULE_EFFECT_DURATION,
              capsules_in_last_turn := int (length (capsules_defending g))\<rparr>
      else if turns_with_capsule_effect st > 0
      then st\<lparr>turns_with_capsule_effect := turns_with_capsule_effect st - 1\<rparr>
      else st)"

definition DefendAgent_update_counters :: "DefendAgent \<Rightarrow> env \<Rightarrow> (error + DefendAgent) option" where
  "DefendAgent_update_counters st g =
     (case (if initial_goal st = None then calculate_patrol_points st g else Some (Inr st)) of
        None \<Rightarrow> None
      | Some (Inl e) \<Rightarrow> Some (Inl e)
      | Some (Inr st1) \<Rightarrow>
          (case get_food_positions_ours g of
             Inl e \<Rightarrow> Some (Inl e)
           | Inr food_positions_in_this_turn \<Rightarrow>
               (case food_positions_in_last_turn st1 of
                  None \<Rightarrow> Some (Inl TypeError)
                | Some last_turn \<Rightarrow>
                    (let foods_eaten =
                           remdups (filter (\<lambda>p. p \<notin> set food_positions_in_this_turn) last_turn);
                         st2 = st1\<lparr>food_positions_in_last_turn :=
                                      Some food_positions_in_this_turn\<rparr>;
                         st3 = (if length foods_eaten > 0
                                then st2\<lparr>eaten_food_position :=
                                       Some (foods_eaten ! (set_order g mod length foods_eaten))\<rparr>
                                else st2)
                     in Some (Inr (track_capsule_effect st3 g))))))"

definition pursue ::
  "DefendAgent \<Rightarrow> env \<Rightarrow> pos \<Rightarrow> (error + (DefendAgent \<times> action)) option" where
  "pursue st g enemy_position =
     (case first_move_towards g (DefendAgent_heuristic g) (Some enemy_position) of
        None \<Rightarrow> None
      | Some (Inl e) \<Rightarrow> Some (Inl e)
      | Some (Inr a) \<Rightarrow> Some (Inr (st, a)))"

definition decide_action_enemy_close_in_our_field ::
  "DefendAgent \<Rightarrow> pos \<Rightarrow> env \<Rightarrow> (error + (DefendAgent \<times> action)) option" where
  "decide_action_enemy_close_in_our_field st enemy_position g =
     (if turns_with_capsule_effect st = 0 then pursue st g enemy_position
      else if turns_with_capsule_effect st
                < maze_distance g (get_our_position g) enemy_position
      then pursue st g enemy_position
      else do_vertical_patrol st g)"

text \<open>The loop of lines 179 to 184: the first visible enemy inside our field.\<close>

fun enemy_in_our_field :: "env \<Rightarrow> pos option list \<Rightarrow> pos option" where
  "enemy_in_our_field g [] = None"
| "enemy_in_our_field g (e # es) =
     (case e of
        None \<Rightarrow> enemy_in_our_field g es
      | Some enemy_position \<Rightarrow>
          if in_our_field g enemy_position then Some enemy_position
          else enemy_in_our_field g es)"

definition DefendAgent_choose_action ::
  "DefendAgent \<Rightarrow> env \<Rightarrow> (error + (DefendAgent \<times> action)) option" where
  "DefendAgent_choose_action st g =
     (case DefendAgent_update_counters st g of
        None \<Rightarrow> None
      | Some (Inl e) \<Rightarrow> Some (Inl e)
      | Some (Inr st1) \<Rightarrow>
          if length (initial_actions st1) \<noteq> 0
          then Some (Inr (st1\<lparr>initial_actions := tl (initial_actions st1)\<rparr>,
                          hd (initial_actions st1)))
          else (case enemy_in_our_field g (enemy_positions g) of
                  Some enemy_position \<Rightarrow>
                    decide_action_enemy_close_in_our_field st1 enemy_position g
                | None \<Rightarrow>
                    (case eaten_food_position st1 of
                       None \<Rightarrow> do_vertical_patrol st1 g
                     | Some efp \<Rightarrow>
                         if efp \<noteq> get_our_position g then pursue st1 g efp
                         else do_vertical_patrol (st1\<lparr>eaten_food_position := None\<rparr>) g)))"

section \<open>The claims' own notions\<close>

subsection \<open>Food grids\<close>

text \<open>
  The grid of the framework is rectangular.  \<open>all_food_positions\<close> scans every cell, in
  the order of the source's loops: the true food positions.  A pellet lies in the maximal
  row or column when its row index is \<open>numRows - 1\<close> or its column index
  \<open>numColumns - 1\<close>.
\<close>

definition rectangular :: "bool list list \<Rightarrow> bool" where
  "rectangular grid = (grid \<noteq> [] \<and> (\<forall>c \<in> set grid. length c = length (hd grid)))"

definition grid_cells :: "nat \<Rightarrow> nat \<Rightarrow> (nat \<times> nat) list" where
  "grid_cells numRows numColumns =
     concat (map (\<lambda>j. map (\<lambda>i. (i, j)) [0 ..< numColumns]) [0 ..< numRows])"

definition is_food :: "bool list list \<Rightarrow> nat \<times> nat \<Rightarrow> bool" where
  "is_food grid c = (grid ! fst c ! snd c)"

definition to_pos :: "nat \<times> nat \<Rightarrow> pos" where
  "to_pos c = (int (fst c), int (snd c))"

definition all_food_positions :: "bool list list \<Rightarrow> pos list" where
  "all_food_positions grid =
     map to_pos (filter (is_food grid) (grid_cells (length (hd grid)) (length grid)))"

definition food_on_last_row_or_column :: "bool list list \<Rightarrow> bool" where
  "food_on_last_row_or_column grid =
     (\<exists>i < length grid. \<exists>j < length (hd grid).
        grid ! i ! j \<and> (i = length grid - 1 \<or> j = length (hd grid) - 1))"

definition env_food :: env where
  "env_food = \<lparr>red = True, width = 3, height = 3, walls = (\<lambda>x y. False),
     my_position = (1, 1), my_initial_position = (1, 1), initial_enemy_position = (1, 1),
     enemy_positions = [], legal_actions = [], legal_actions_own = (\<lambda>p. []),
     food = [[False, False, False], [False, True, False], [False, False, False]],
     food_defending = [[False, False, False], [False, True, False], [False, False, True]],
     capsules = [(5, 5)], capsules_defending = [],
     maze_distance = (\<lambda>p q. 0), rnd_food = 0, rnd_move = 0, set_order = 0\<rparr>"

subsection \<open>A corridor board\<close>

text \<open>
  A board of width 16 and height 3 whose only free cells are \<open>(1, 1) .. (14, 1)\<close>.  The
  framework lists the legal actions in the order West, Stop, East, North, South, and the
  maze distance along the corridor is the Manhattan distance.
\<close>

definition corridor_legal :: "pos \<Rightarrow> action list" where
  "corridor_legal p =
     (if snd p = 1 \<and> 1 \<le> fst p \<and> fst p \<le> 14
      then (if 1 < fst p then [West] else []) @ [Stop] @ (if fst p < 14 then [East] else [])
      else [Stop])"

definition manhattan :: "pos \<Rightarrow> pos \<Rightarrow> int" where
  "manhattan p q = \<bar>fst p - fst q\<bar> + \<bar>snd p - snd q\<bar>"

definition env_corridor :: env where
  "env_corridor = \<lparr>red = True, width = 16, height = 3,
     walls = (\<lambda>x y. \<not> (y = 1 \<and> 1 \<le> x \<and> x \<le> 14)),
     my_position = (1, 1), my_initial_position = (1, 1), initial_enemy_position = (14, 1),
     enemy_positions = [None, None], legal_actions = corridor_legal (1, 1),
     legal_actions_own = corridor_legal,
     food = replicate 16 [False, False, False],
     food_defending = replicate 16 [False, False, False],
     capsules = [(10, 1), (12, 1)], capsules_defending = [(3, 1), (5, 1)],
     maze_distance = manhattan, rnd_food = 0, rnd_move = 0, set_order = 0\<rparr>"

definition env_capsule_eaten :: env where
  "env_capsule_eaten = env_corridor\<lparr>capsules := [(10, 1)], capsules_defending := [(3, 1)]\<rparr>"

subsection \<open>The game loop\<close>

text \<open>
  The framework creates an agent, calls \<open>register_initial_state\<close> once and then
  \<open>choose_action\<close> once per turn, each time with the game state it observes; a turn
  that raises ends the game.  A state is reachable together with the game state observed
  last.  \<open>counters_of\<close> reads the two capsule attributes.
\<close>

definition attacker_registered_state :: AttackAgent where
  "attacker_registered_state =
     AttackAgent_class\<lparr>capsules_in_last_turn := 2, food_in_last_turn := 2\<rparr>"

definition defender_registered_state :: DefendAgent where
  "defender_registered_state =
     DefendAgent_class\<lparr>capsules_in_last_turn := 2,
       food_positions_in_last_turn := Some [(3, 1), (5, 1)]\<rparr>"

definition counters_of :: "'a counters_scheme \<Rightarrow> int \<times> int" where
  "counters_of st = (capsules_in_last_turn st, turns_with_capsule_effect st)"

inductive attacker_reachable :: "AttackAgent \<Rightarrow> env \<Rightarrow> bool" where
  attacker_registered:
    "AttackAgent_register_initial_state AttackAgent_class g = Inr st \<Longrightarrow> attacker_reachable st g"
| attacker_turn:
    "attacker_reachable st g \<Longrightarrow> AttackAgent_choose_action st g' = Some (Inr (st', a))
       \<Longrightarrow> attacker_reachable st' g'"

inductive defender_reachable :: "DefendAgent \<Rightarrow> env \<Rightarrow> bool" where
  defender_registered:
    "DefendAgent_register_initial_state DefendAgent_class g = Inr st \<Longrightarrow> defender_reachable st g"
| defender_turn:
    "defender_reachable st g \<Longrightarrow> DefendAgent_choose_action st g' = Some (Inr (st', a))
       \<Longrightarrow> defender_reachable st' g'"

subsection \<open>An intruder in the corridor\<close>

text \<open>
  The defender stands at \<open>p\<close> with both patrol points at \<open>(1, 1)\<close>, the power-up
  counter at \<open>n\<close>; the first opponent is visible at \<open>e\<close>.
\<close>

definition defender_on_patrol :: "int \<Rightarrow> DefendAgent" where
  "defender_on_patrol n =
     DefendAgent_class\<lparr>capsules_in_last_turn := 2, turns_with_capsule_effect := n,
       initial_goal := Some (1, 1), patrol_point_1 := Some (1, 1),
       patrol_point_2 := Some (1, 1),
       food_positions_in_last_turn := Some [(3, 1), (5, 1)]\<rparr>"

definition env_intruder :: "pos \<Rightarrow> pos \<Rightarrow> env" where
  "env_intruder p e =
     env_corridor\<lparr>my_position := p, enemy_positions := [Some e, None],
       legal_actions := corridor_legal p\<rparr>"

section \<open>Properties\<close>

subsection \<open>Food positions\<close>

lemma scan_cells_in_range:
  "\<forall>c \<in> set cells. fst c < length grid \<and> snd c < length (grid ! fst c) \<Longrightarrow>
   scan_cells grid cells acc = Inr (acc @ map to_pos (filter (is_food grid) cells))"
proof (induction cells arbitrary: acc)
  case Nil
  then show ?case by simp
next
  case (Cons c cells)
  obtain i j where c: "c = (i, j)" by (cases c)
  from Cons.prems have r: "i < length grid" "j < length (grid ! i)" by (auto simp: c)
  from Cons.prems have rest: "\<forall>c \<in> set cells. fst c < length grid \<and> snd c < length (grid ! fst c)"
    by simp
  show ?case
    using r by (simp add: c grid_at_def Cons.IH [OF rest] is_food_def to_pos_def)
qed

lemma set_scanned_cells:
  "set (scanned_cells r c) = {(i, j). i < c - 1 \<and> j < r - 1}"
  by (auto simp: scanned_cells_def)

lemma set_grid_cells: "set (grid_cells r c) = {(i, j). i < c \<and> j < r}"
  by (auto simp: grid_cells_def)

lemma food_positions_of_rect:
  assumes "rectangular grid"
  shows "food_positions_of grid caps =
           Inr (map to_pos (filter (is_food grid)
                  (scanned_cells (length (hd grid)) (length grid))) @ caps)"
proof -
  from assms have ne: "grid \<noteq> []" by (simp add: rectangular_def)
  have len: "length (grid ! i) = length (hd grid)" if "i < length grid" for i
    using assms that unfolding rectangular_def by (meson nth_mem)
  have inr: "\<forall>c \<in> set (scanned_cells (length (hd grid)) (length grid)).
          fst c < length grid \<and> snd c < length (grid ! fst c)"
  proof
    fix c assume "c \<in> set (scanned_cells (length (hd grid)) (length grid))"
    then have a: "fst c < length grid - 1" "snd c < length (hd grid) - 1"
      by (auto simp: set_scanned_cells)
    from a(1) have b: "fst c < length grid" by arith
    from a(2) have "snd c < length (hd grid)" by arith
    with b len [OF b] show "fst c < length grid \<and> snd c < length (grid ! fst c)" by simp
  qed
  note sc = scan_cells_in_range [OF inr, of "[]"]
  show ?thesis
    using ne sc by (simp add: food_positions_of_def list.case_eq_if)
qed

lemma inj_to_pos: "inj to_pos"
  by (auto simp: inj_on_def to_pos_def)

lemma filter_row_Suc:
  "filter P (map (\<lambda>i. (i, j)) [0 ..< Suc c]) =
     filter P (map (\<lambda>i. (i, j)) [0 ..< c]) @ (if P (c, j) then [(c, j)] else [])"
  by simp

lemma filter_grid_drop_column:
  assumes "\<forall>j < r. \<not> P (c, j)"
  shows "filter P (grid_cells r (Suc c)) = filter P (grid_cells r c)"
proof -
  have "map (\<lambda>j. filter P (map (\<lambda>i. (i, j)) [0 ..< Suc c])) [0 ..< r] =
        map (\<lambda>j. filter P (map (\<lambda>i. (i, j)) [0 ..< c])) [0 ..< r]"
    using assms by (intro map_cong refl) simp
  then show ?thesis
    by (simp only: grid_cells_def filter_concat map_map o_def)
qed

lemma filter_grid_drop_row:
  assumes "\<forall>i < c. \<not> P (i, r)"
  shows "filter P (grid_cells (Suc r) c) = filter P (grid_cells r c)"
proof -
  have "filter P (map (\<lambda>i. (i, r)) [0 ..< c]) = []"
    using assms by (auto simp: filter_empty_conv)
  then show ?thesis
    by (simp add: grid_cells_def)
qed

lemma scanned_cells_grid: "scanned_cells r c = grid_cells (r - 1) (c - 1)"
  by (simp add: scanned_cells_def grid_cells_def)

lemma no_border_food_same_scan:
  assumes "\<not> food_on_last_row_or_column grid" "grid \<noteq> []"
  shows "filter (is_food grid) (scanned_cells (length (hd grid)) (length grid)) =
         filter (is_food grid) (grid_cells (length (hd grid)) (length grid))"
proof -
  define r where "r = length (hd grid)"
  define c where "c = length grid"
  from assms(2) obtain c' where c': "c = Suc c'" by (cases c) (auto simp: c_def)
  have nocol: "\<forall>j < r. \<not> is_food grid (c', j)"
  proof (intro allI impI notI)
    fix j assume "j < r" "is_food grid (c', j)"
    then have "c' < length grid \<and> j < length (hd grid) \<and> grid ! c' ! j
                 \<and> (c' = length grid - 1 \<or> j = length (hd grid) - 1)"
      by (simp add: is_food_def r_def c_def [symmetric] c')
    then have "food_on_last_row_or_column grid"
      unfolding food_on_last_row_or_column_def by blast
    with assms(1) show False by simp
  qed
  show ?thesis
  proof (cases r)
    case 0
    then show ?thesis by (simp add: r_def [symmetric] scanned_cells_grid grid_cells_def)
  next
    case (Suc r')
    have norow: "\<forall>i < c'. \<not> is_food grid (i, r')"
    proof (intro allI impI notI)
      fix i assume "i < c'" "is_food grid (i, r')"
      then have "i < length grid \<and> r' < length (hd grid) \<and> grid ! i ! r'
                   \<and> (i = length grid - 1 \<or> r' = length (hd grid) - 1)"
        by (simp add: is_food_def r_def [symmetric] c_def [symmetric] c' Suc)
      then have "food_on_last_row_or_column grid"
        unfolding food_on_last_row_or_column_def by blast
      with assms(1) show False by simp
    qed
    have "filter (is_food grid) (grid_cells r c) = filter (is_food grid) (grid_cells r c')"
      unfolding c' by (rule filter_grid_drop_column [OF nocol])
    also have "\<dots> = filter (is_food grid) (grid_cells r' c')"
      unfolding Suc by (rule filter_grid_drop_row [OF norow])
    finally show ?thesis
      by (simp add: r_def [symmetric] c_def [symmetric] scanned_cells_grid c' Suc)
  qed
qed

lemma food_positions_exact_iff:
  assumes "rectangular grid"
  shows "food_positions_of grid caps = Inr (all_food_positions grid @ caps)
           \<longleftrightarrow> \<not> food_on_last_row_or_column grid"
proof
  assume eq: "food_positions_of grid caps = Inr (all_food_positions grid @ caps)"
  show "\<not> food_on_last_row_or_column grid"
  proof
    assume "food_on_last_row_or_column grid"
    then obtain i j where ij: "i < length grid" "j < length (hd grid)" "grid ! i ! j"
      "i = length grid - 1 \<or> j = length (hd grid) - 1"
      by (auto simp: food_on_last_row_or_column_def)
    from eq have "map to_pos (filter (is_food grid) (scanned_cells (length (hd grid)) (length grid)))
                  = map to_pos (filter (is_food grid) (grid_cells (length (hd grid)) (length grid)))"
      by (simp add: food_positions_of_rect [OF assms] all_food_positions_def)
    then have "filter (is_food grid) (scanned_cells (length (hd grid)) (length grid))
                  = filter (is_food grid) (grid_cells (length (hd grid)) (length grid))"
      using inj_to_pos by (simp add: inj_map_eq_map)
    then have "set (filter (is_food grid) (grid_cells (length (hd grid)) (length grid)))
               \<subseteq> set (scanned_cells (length (hd grid)) (length grid))"
      by (metis filter_is_subset)
    moreover have "(i, j) \<in> set (filter (is_food grid) (grid_cells (length (hd grid)) (length grid)))"
      using ij by (simp add: set_grid_cells is_food_def)
    ultimately have "(i, j) \<in> set (scanned_cells (length (hd grid)) (length grid))" by blast
    then show False using ij(4) by (auto simp: set_scanned_cells)
  qed
next
  assume "\<not> food_on_last_row_or_column grid"
  moreover from assms have "grid \<noteq> []" by (simp add: rectangular_def)
  ultimately show "food_positions_of grid caps = Inr (all_food_positions grid @ caps)"
    by (simp add: food_positions_of_rect [OF assms] all_food_positions_def no_border_food_same_scan)
qed

lemma set_all_food_positions:
  "set (all_food_positions grid) =
     to_pos ` {c. fst c < length grid \<and> snd c < length (hd grid) \<and> grid ! fst c ! snd c}"
proof -
  have "set (filter (is_food grid) (grid_cells (length (hd grid)) (length grid))) =
          {c. fst c < length grid \<and> snd c < length (hd grid) \<and> grid ! fst c ! snd c}"
    by (auto simp: set_grid_cells is_food_def)
  then show ?thesis
    by (simp add: all_food_positions_def)
qed

text \<open>
  C10: \<open>get_food_positions_enemy\<close> and \<open>get_food_positions_ours\<close> scan the rows
  \<open>0 .. numRows - 2\<close> and the columns \<open>0 .. numColumns - 2\<close> only.  On a rectangular
  grid each returns exactly the true food positions followed by the capsules if and only
  if no pellet lies in the maximal row or the maximal column; this is the case whenever
  the cells of that row and column are walls and no pellet sits on a wall.
\<close>

theorem get_food_positions_exact_iff:
  assumes "rectangular (food g)" and "rectangular (food_defending g)"
  shows "(get_food_positions_enemy g = Inr (all_food_positions (food g) @ capsules g)
            \<longleftrightarrow> \<not> food_on_last_row_or_column (food g))
       \<and> (get_food_positions_ours g =
              Inr (all_food_positions (food_defending g) @ capsules_defending g)
            \<longleftrightarrow> \<not> food_on_last_row_or_column (food_defending g))
       \<and> ((\<forall>i j. i = length (food g) - 1 \<or> j = length (hd (food g)) - 1
                  \<longrightarrow> walls g (int i) (int j))
           \<and> (\<forall>i j. food g ! i ! j \<longrightarrow> \<not> walls g (int i) (int j))
           \<longrightarrow> get_food_positions_enemy g = Inr (all_food_positions (food g) @ capsules g))"
proof -
  have a: "get_food_positions_enemy g = Inr (all_food_positions (food g) @ capsules g)
            \<longleftrightarrow> \<not> food_on_last_row_or_column (food g)"
    unfolding get_food_positions_enemy_def by (rule food_positions_exact_iff [OF assms(1)])
  have b: "get_food_positions_ours g =
              Inr (all_food_positions (food_defending g) @ capsules_defending g)
            \<longleftrightarrow> \<not> food_on_last_row_or_column (food_defending g)"
    unfolding get_food_positions_ours_def by (rule food_positions_exact_iff [OF assms(2)])
  have c: "\<not> food_on_last_row_or_column (food g)"
    if w: "\<forall>i j. i = length (food g) - 1 \<or> j = length (hd (food g)) - 1
                  \<longrightarrow> walls g (int i) (int j)"
      and f: "\<forall>i j. food g ! i ! j \<longrightarrow> \<not> walls g (int i) (int j)"
  proof
    assume "food_on_last_row_or_column (food g)"
    then obtain i j where "food g ! i ! j"
      "i = length (food g) - 1 \<or> j = length (hd (food g)) - 1"
      unfolding food_on_last_row_or_column_def by blast
    with w f show False by blast
  qed
  from a b c show ?thesis by blast
qed

theorem get_food_positions_exact_iff_witness:
  "rectangular (food env_food) \<and> rectangular (food_defending env_food)
   \<and> get_food_positions_enemy env_food = Inr [(1, 1), (5, 5)]
   \<and> get_food_positions_enemy env_food =
         Inr (all_food_positions (food env_food) @ capsules env_food)
   \<and> food_on_last_row_or_column (food_defending env_food)
   \<and> get_food_positions_ours env_food = Inr [(1, 1)]
   \<and> all_food_positions (food_defending env_food) = [(1, 1), (2, 2)]"
proof -
  have r1: "rectangular (food env_food)" and r2: "rectangular (food_defending env_food)"
    by (simp_all add: rectangular_def env_food_def)
  note th = get_food_positions_exact_iff [OF r1 r2]
  have e: "get_food_positions_enemy env_food = Inr [(1, 1), (5, 5)]"
    by code_simp
  have o: "get_food_positions_ours env_food = Inr [(1, 1)]"
    by code_simp
  have all1: "all_food_positions (food env_food) @ capsules env_food = [(1, 1), (5, 5)]"
    by code_simp
  have all2: "all_food_positions (food_defending env_food) = [(1, 1), (2, 2)]"
    by code_simp
  from th e all1 have nb: "\<not> food_on_last_row_or_column (food env_food)" by simp
  from th o all2 have b: "food_on_last_row_or_column (food_defending env_food)" by simp
  from r1 r2 e all1 b o all2 show ?thesis by simp
qed

subsection \<open>The power-up counter\<close>

lemma attacker_update_counters_capsule:
  assumes "AttackAgent_update_counters st g = Inr st'"
  shows "counters_of st' =
           (if capsules_in_last_turn st > int (length (capsules g))
            then (int (length (capsules g)), attack_CAPSULE_EFFECT_DURATION)
            else (capsules_in_last_turn st,
                  if turns_with_capsule_effect st > 0 then turns_with_capsule_effect st - 1
                  else turns_with_capsule_effect st))"
  using assms
  by (auto simp: AttackAgent_update_counters_def Let_def counters_of_def
           split: sum.splits if_splits)

lemma decide_action_return_counters:
  "decide_action_return st g = Some (Inr (st', a)) \<Longrightarrow> counters_of st' = counters_of st"
  by (auto simp: decide_action_return_def split: option.splits sum.splits if_splits prod.splits)

lemma keep_fleeing_counters:
  "keep_fleeing st g = Some (Inr (st', a)) \<Longrightarrow> counters_of st' = counters_of st"
  by (auto simp: keep_fleeing_def counters_of_def
           split: option.splits sum.splits if_splits prod.splits)

lemma mini_retreat_counters:
  "mini_retreat st g = Some (Inr (st', a)) \<Longrightarrow> counters_of st' = counters_of st"
  by (auto simp: mini_retreat_def counters_of_def Let_def
           split: option.splits sum.splits if_splits prod.splits)

lemma attack_closest_food_counters:
  "attack_closest_food st g = Some (Inr (st', a)) \<Longrightarrow> counters_of st' = counters_of st"
  by (auto simp: attack_closest_food_def counters_of_def
           split: option.splits sum.splits if_splits prod.splits)

lemma plan_opening_counters:
  "plan_opening st g = Some (Inr st') \<Longrightarrow> counters_of st' = counters_of st"
  by (auto simp: plan_opening_def counters_of_def
           split: option.splits sum.splits if_splits prod.splits)

lemma has_been_fleeing_too_much_counters:
  "has_been_fleeing_too_much st g = (st', b) \<Longrightarrow> counters_of st' = counters_of st"
  by (auto simp: has_been_fleeing_too_much_def counters_of_def split: if_splits)

lemma decide_action_attack_counters:
  assumes "decide_action_attack st g = Some (Inr (st', a))"
  shows "counters_of st' = counters_of st"
proof -
  from assms obtain st1 where p: "plan_opening st g = Some (Inr st1)"
    by (auto simp: decide_action_attack_def split: option.splits sum.splits)
  have c1: "counters_of st1 = counters_of st" by (rule plan_opening_counters [OF p])
  obtain st2 b where h: "has_been_fleeing_too_much st1 g = (st2, b)" by fastforce
  have c2: "counters_of st2 = counters_of st1" by (rule has_been_fleeing_too_much_counters [OF h])
  from assms p h have "counters_of st' = counters_of st1"
    using keep_fleeing_counters [of st1 g st' a] mini_retreat_counters [of st2 g st' a]
      attack_closest_food_counters [of st2 g st' a] c2
    by (auto simp: decide_action_attack_def counters_of_def split: sum.splits if_splits)
  with c1 show ?thesis by simp
qed

lemma flee_home_counters:
  "flee_home st g = Some (Inr (st', a)) \<Longrightarrow> counters_of st' = counters_of st"
  by (auto simp: flee_home_def counters_of_def Let_def
           split: option.splits sum.splits if_splits prod.splits)

lemma attacker_choose_action_counters:
  assumes "AttackAgent_choose_action st g = Some (Inr (st', a))"
  shows "\<exists>st1. AttackAgent_update_counters st g = Inr st1 \<and> counters_of st' = counters_of st1"
  using assms decide_action_return_counters decide_action_attack_counters flee_home_counters
  by (auto simp: AttackAgent_choose_action_def decide_action_in_enemy_field_def
           split: sum.splits if_splits)


lemma track_capsule_effect_counters:
  "counters_of (track_capsule_effect st g) =
     (if capsules_in_last_turn st > int (length (capsules_defending g))
      then (int (length (capsules_defending g)), defend_CAPSULE_EFFECT_DURATION)
      else (capsules_in_last_turn st,
            if turns_with_capsule_effect st > 0 then turns_with_capsule_effect st - 1
            else turns_with_capsule_effect st))"
  by (simp add: track_capsule_effect_def counters_of_def)

lemma calculate_patrol_points_counters:
  "calculate_patrol_points st g = Some (Inr st') \<Longrightarrow> counters_of st' = counters_of st"
  by (auto simp: calculate_patrol_points_def counters_of_def Let_def
           split: option.splits sum.splits if_splits prod.splits)

lemma defender_update_counters_capsule:
  assumes "DefendAgent_update_counters st g = Some (Inr st')"
  shows "counters_of st' =
           (if capsules_in_last_turn st > int (length (capsules_defending g))
            then (int (length (capsules_defending g)), defend_CAPSULE_EFFECT_DURATION)
            else (capsules_in_last_turn st,
                  if turns_with_capsule_effect st > 0 then turns_with_capsule_effect st - 1
                  else turns_with_capsule_effect st))"
proof -
  from assms obtain st1 where
    c: "(if initial_goal st = None then calculate_patrol_points st g else Some (Inr st))
          = Some (Inr st1)"
    by (auto simp: DefendAgent_update_counters_def split: option.splits sum.splits)
  have c1: "counters_of st1 = counters_of st"
    using c calculate_patrol_points_counters [of st g st1] by (auto split: if_splits)
  from assms c obtain st3 where t: "st' = track_capsule_effect st3 g"
    and c3: "counters_of st3 = counters_of st1"
    by (auto simp: DefendAgent_update_counters_def Let_def counters_of_def
             split: option.splits sum.splits if_splits)
  from c1 c3 have "capsules_in_last_turn st3 = capsules_in_last_turn st"
    "turns_with_capsule_effect st3 = turns_with_capsule_effect st"
    by (simp_all add: counters_of_def)
  then show ?thesis unfolding t track_capsule_effect_counters by simp
qed

lemma do_vertical_patrol_counters:
  "do_vertical_patrol st g = Some (Inr (st', a)) \<Longrightarrow> counters_of st' = counters_of st"
  by (auto simp: do_vertical_patrol_def counters_of_def Let_def
           split: option.splits sum.splits if_splits prod.splits)

lemma pursue_counters:
  "pursue st g e = Some (Inr (st', a)) \<Longrightarrow> counters_of st' = counters_of st"
  by (auto simp: pursue_def split: option.splits sum.splits)

lemma defender_choose_action_counters:
  assumes "DefendAgent_choose_action st g = Some (Inr (st', a))"
  shows "\<exists>st1. DefendAgent_update_counters st g = Some (Inr st1)
               \<and> counters_of st' = counters_of st1"
proof -
  from assms obtain st1 where u: "DefendAgent_update_counters st g = Some (Inr st1)"
    by (auto simp: DefendAgent_choose_action_def split: option.splits sum.splits)
  have e: "counters_of (st1\<lparr>eaten_food_position := None\<rparr>) = counters_of st1"
    by (simp add: counters_of_def)
  from assms u have "counters_of st' = counters_of st1"
    using do_vertical_patrol_counters [of st1 g st' a] pursue_counters [of st1 g _ st' a]
      do_vertical_patrol_counters [of "st1\<lparr>eaten_food_position := None\<rparr>" g st' a] e
    by (auto simp: DefendAgent_choose_action_def decide_action_enemy_close_in_our_field_def
                   counters_of_def
             split: option.splits if_splits)
  with u show ?thesis by blast
qed

lemma attacker_reachable_inv:
  "attacker_reachable st g \<Longrightarrow>
     0 \<le> turns_with_capsule_effect st
     \<and> turns_with_capsule_effect st \<le> attack_CAPSULE_EFFECT_DURATION
     \<and> capsules_in_last_turn st \<le> int (length (capsules g))"
proof (induction rule: attacker_reachable.induct)
  case (attacker_registered g st)
  then show ?case
    by (auto simp: AttackAgent_register_initial_state_def attack_CAPSULE_EFFECT_DURATION_def
             split: sum.splits)
next
  case (attacker_turn st g g' st' a)
  from attacker_choose_action_counters [OF attacker_turn.hyps(2)] obtain st1 where
    u: "AttackAgent_update_counters st g' = Inr st1" and c: "counters_of st' = counters_of st1"
    by blast
  from attacker_update_counters_capsule [OF u] c attacker_turn.IH show ?case
    by (auto simp: counters_of_def attack_CAPSULE_EFFECT_DURATION_def split: if_splits)
qed

lemma defender_reachable_inv:
  "defender_reachable st g \<Longrightarrow>
     0 \<le> turns_with_capsule_effect st
     \<and> turns_with_capsule_effect st \<le> defend_CAPSULE_EFFECT_DURATION
     \<and> capsules_in_last_turn st \<le> int (length (capsules_defending g))"
proof (induction rule: defender_reachable.induct)
  case (defender_registered g st)
  then show ?case
    by (auto simp: DefendAgent_register_initial_state_def defend_CAPSULE_EFFECT_DURATION_def
             split: sum.splits)
next
  case (defender_turn st g g' st' a)
  from defender_choose_action_counters [OF defender_turn.hyps(2)] obtain st1 where
    u: "DefendAgent_update_counters st g' = Some (Inr st1)"
    and c: "counters_of st' = counters_of st1"
    by blast
  from defender_update_counters_capsule [OF u] c defender_turn.IH show ?case
    by (auto simp: counters_of_def defend_CAPSULE_EFFECT_DURATION_def split: if_splits)
qed

text \<open>
  C8: in every reachable state of the attacker and of the defender the power-up counter
  lies between 0 and the role's duration (35 and 40).  Across an update of the counters
  from a reachable state the counter stays equal, decreases by exactly 1 or is set to the
  role's duration, and it can only grow on a turn whose observed capsule count is strictly
  smaller than the count observed on the previous turn; the recorded count is then the
  new count, so the same disappearance arms the counter once.
\<close>

theorem power_up_counter_invariants:
  "(attacker_reachable st g \<longrightarrow>
      0 \<le> turns_with_capsule_effect st
      \<and> turns_with_capsule_effect st \<le> attack_CAPSULE_EFFECT_DURATION)
   \<and> (attacker_reachable st g \<and> AttackAgent_update_counters st g' = Inr st' \<longrightarrow>
        0 \<le> turns_with_capsule_effect st'
        \<and> (turns_with_capsule_effect st' = turns_with_capsule_effect st
           \<or> turns_with_capsule_effect st' = turns_with_capsule_effect st - 1
           \<or> turns_with_capsule_effect st' = attack_CAPSULE_EFFECT_DURATION)
        \<and> (turns_with_capsule_effect st < turns_with_capsule_effect st' \<longrightarrow>
             turns_with_capsule_effect st' = attack_CAPSULE_EFFECT_DURATION
             \<and> length (capsules g') < length (capsules g)
             \<and> capsules_in_last_turn st' = int (length (capsules g'))))
   \<and> (defender_reachable dst dg \<longrightarrow>
        0 \<le> turns_with_capsule_effect dst
        \<and> turns_with_capsule_effect dst \<le> defend_CAPSULE_EFFECT_DURATION)
   \<and> (defender_reachable dst dg \<and> DefendAgent_update_counters dst dg' = Some (Inr dst') \<longrightarrow>
        0 \<le> turns_with_capsule_effect dst'
        \<and> (turns_with_capsule_effect dst' = turns_with_capsule_effect dst
           \<or> turns_with_capsule_effect dst' = turns_with_capsule_effect dst - 1
           \<or> turns_with_capsule_effect dst' = defend_CAPSULE_EFFECT_DURATION)
        \<and> (turns_with_capsule_effect dst < turns_with_capsule_effect dst' \<longrightarrow>
             turns_with_capsule_effect dst' = defend_CAPSULE_EFFECT_DURATION
             \<and> length (capsules_defending dg') < length (capsules_defending dg)
             \<and> capsules_in_last_turn dst' = int (length (capsules_defending dg'))))"
proof (intro conjI impI)
  assume r: "attacker_reachable st g"
  from attacker_reachable_inv [OF r]
  show "0 \<le> turns_with_capsule_effect st"
    "turns_with_capsule_effect st \<le> attack_CAPSULE_EFFECT_DURATION" by simp_all
next
  assume "attacker_reachable st g \<and> AttackAgent_update_counters st g' = Inr st'"
  then have r: "attacker_reachable st g" and u: "AttackAgent_update_counters st g' = Inr st'"
    by simp_all
  note i = attacker_reachable_inv [OF r]
  note c = attacker_update_counters_capsule [OF u]
  from i c show "0 \<le> turns_with_capsule_effect st'"
    by (auto simp: counters_of_def attack_CAPSULE_EFFECT_DURATION_def split: if_splits)
  from i c show "turns_with_capsule_effect st' = turns_with_capsule_effect st
           \<or> turns_with_capsule_effect st' = turns_with_capsule_effect st - 1
           \<or> turns_with_capsule_effect st' = attack_CAPSULE_EFFECT_DURATION"
    by (auto simp: counters_of_def split: if_splits)
  assume j: "turns_with_capsule_effect st < turns_with_capsule_effect st'"
  from i c j show "turns_with_capsule_effect st' = attack_CAPSULE_EFFECT_DURATION"
    by (auto simp: counters_of_def split: if_splits)
  from i c j show "length (capsules g') < length (capsules g)"
    by (auto simp: counters_of_def split: if_splits)
  from i c j show "capsules_in_last_turn st' = int (length (capsules g'))"
    by (auto simp: counters_of_def split: if_splits)
next
  assume r: "defender_reachable dst dg"
  from defender_reachable_inv [OF r]
  show "0 \<le> turns_with_capsule_effect dst"
    "turns_with_capsule_effect dst \<le> defend_CAPSULE_EFFECT_DURATION" by simp_all
next
  assume "defender_reachable dst dg \<and> DefendAgent_update_counters dst dg' = Some (Inr dst')"
  then have r: "defender_reachable dst dg"
    and u: "DefendAgent_update_counters dst dg' = Some (Inr dst')"
    by simp_all
  note i = defender_reachable_inv [OF r]
  note c = defender_update_counters_capsule [OF u]
  from i c show "0 \<le> turns_with_capsule_effect dst'"
    by (auto simp: counters_of_def defend_CAPSULE_EFFECT_DURATION_def split: if_splits)
  from i c show "turns_with_capsule_effect dst' = turns_with_capsule_effect dst
           \<or> turns_with_capsule_effect dst' = turns_with_capsule_effect dst - 1
           \<or> turns_with_capsule_effect dst' = defend_CAPSULE_EFFECT_DURATION"
    by (auto simp: counters_of_def split: if_splits)
  assume j: "turns_with_capsule_effect dst < turns_with_capsule_effect dst'"
  from i c j show "turns_with_capsule_effect dst' = defend_CAPSULE_EFFECT_DURATION"
    by (auto simp: counters_of_def split: if_splits)
  from i c j show "length (capsules_defending dg') < length (capsules_defending dg)"
    by (auto simp: counters_of_def split: if_splits)
  from i c j show "capsules_in_last_turn dst' = int (length (capsules_defending dg'))"
    by (auto simp: counters_of_def split: if_splits)
qed

theorem power_up_counter_invariants_witness:
  "attacker_reachable attacker_registered_state env_corridor
   \<and> (\<exists>st'. AttackAgent_update_counters attacker_registered_state env_capsule_eaten = Inr st'
        \<and> turns_with_capsule_effect st' = 35 \<and> capsules_in_last_turn st' = 1)
   \<and> turns_with_capsule_effect attacker_registered_state = 0
   \<and> length (capsules env_capsule_eaten) < length (capsules env_corridor)
   \<and> defender_reachable defender_registered_state env_corridor
   \<and> (\<exists>st'. DefendAgent_update_counters defender_registered_state env_capsule_eaten
               = Some (Inr st')
        \<and> turns_with_capsule_effect st' = 40 \<and> capsules_in_last_turn st' = 1)
   \<and> length (capsules_defending env_capsule_eaten) < length (capsules_defending env_corridor)"
proof -
  have ra: "attacker_reachable attacker_registered_state env_corridor"
    by (rule attacker_registered) code_simp
  have rd: "defender_reachable defender_registered_state env_corridor"
    by (rule defender_registered) code_simp
  obtain a1 where ua: "AttackAgent_update_counters attacker_registered_state env_capsule_eaten
      = Inr a1" and ta: "turns_with_capsule_effect a1 = 35"
  proof -
    have "case AttackAgent_update_counters attacker_registered_state env_capsule_eaten of
            Inr s \<Rightarrow> turns_with_capsule_effect s = 35 | Inl e \<Rightarrow> False"
      by code_simp
    then show ?thesis using that by (auto split: sum.splits)
  qed
  obtain d1 where ud: "DefendAgent_update_counters defender_registered_state env_capsule_eaten
      = Some (Inr d1)" and td: "turns_with_capsule_effect d1 = 40"
  proof -
    have "case DefendAgent_update_counters defender_registered_state env_capsule_eaten of
            Some (Inr s) \<Rightarrow> turns_with_capsule_effect s = 40 | _ \<Rightarrow> False"
      by code_simp
    then show ?thesis using that by (auto split: option.splits sum.splits)
  qed
  have z: "turns_with_capsule_effect attacker_registered_state = 0"
    "turns_with_capsule_effect defender_registered_state = 0"
    by (simp_all add: attacker_registered_state_def AttackAgent_class_def
          defender_registered_state_def DefendAgent_class_def)
  note th = power_up_counter_invariants [of attacker_registered_state env_corridor
      env_capsule_eaten a1 defender_registered_state env_corridor env_capsule_eaten d1]
  from th ra ua ta z have A: "length (capsules env_capsule_eaten) < length (capsules env_corridor)"
    "capsules_in_last_turn a1 = int (length (capsules env_capsule_eaten))"
    by simp_all
  from th rd ud td z have D:
    "length (capsules_defending env_capsule_eaten) < length (capsules_defending env_corridor)"
    "capsules_in_last_turn d1 = int (length (capsules_defending env_capsule_eaten))"
    by simp_all
  have l: "length (capsules env_capsule_eaten) = 1"
    "length (capsules_defending env_capsule_eaten) = 1"
    by (simp_all add: env_capsule_eaten_def)
  from ra rd ua ta ud td z A D l show ?thesis by simp
qed

subsection \<open>The defender and an intruder under the power-up effect\<close>

lemma enemy_in_our_field_Some:
  "enemy_in_our_field g es = Some e \<Longrightarrow> Some e \<in> set es \<and> in_our_field g e"
  by (induction es) (auto split: option.splits if_splits)

lemma pursue_unfold:
  "pursue st g e =
     (case aStarSearch (legal_actions_own g) (DefendAgent_heuristic g) (get_our_position g)
             (Some e) of
        None \<Rightarrow> None
      | Some NoPath \<Rightarrow> Some (Inl ValueError)
      | Some (Found p []) \<Rightarrow> Some (Inl IndexError)
      | Some (Found p (a # as)) \<Rightarrow> Some (Inr (st, a)))"
  by (simp add: pursue_def first_move_towards_def unpack2_def index0_def
           split: option.splits search_result.splits list.splits)

text \<open>
  C5: with a positive power-up counter and a visible enemy inside home territory, the
  defender pursues (searches a route to the enemy's position and takes its first move)
  when the counter is strictly less than the maze distance to the enemy, and does the
  vertical patrol otherwise, equality included.  This holds of
  \<open>decide_action_enemy_close_in_our_field\<close> and of the whole turn, once the opening moves
  are used up, for the first visible enemy inside home territory.
\<close>

theorem defender_pursues_iff_effect_shorter_than_distance:
  "(0 < turns_with_capsule_effect st \<longrightarrow>
      decide_action_enemy_close_in_our_field st e g =
        (if turns_with_capsule_effect st < maze_distance g (get_our_position g) e
         then pursue st g e else do_vertical_patrol st g))
   \<and> (DefendAgent_update_counters st0 g = Some (Inr st) \<and> initial_actions st = []
        \<and> enemy_in_our_field g (enemy_positions g) = Some e
        \<and> 0 < turns_with_capsule_effect st \<longrightarrow>
        Some e \<in> set (enemy_positions g) \<and> in_our_field g e
        \<and> DefendAgent_choose_action st0 g =
            (if turns_with_capsule_effect st < maze_distance g (get_our_position g) e
             then pursue st g e else do_vertical_patrol st g))
   \<and> pursue st g e =
       (case aStarSearch (legal_actions_own g) (DefendAgent_heuristic g) (get_our_position g)
               (Some e) of
          None \<Rightarrow> None
        | Some NoPath \<Rightarrow> Some (Inl ValueError)
        | Some (Found p []) \<Rightarrow> Some (Inl IndexError)
        | Some (Found p (a # as)) \<Rightarrow> Some (Inr (st, a)))"
proof (intro conjI impI)
  assume "0 < turns_with_capsule_effect st"
  then show "decide_action_enemy_close_in_our_field st e g =
        (if turns_with_capsule_effect st < maze_distance g (get_our_position g) e
         then pursue st g e else do_vertical_patrol st g)"
    by (simp add: decide_action_enemy_close_in_our_field_def)
next
  assume a: "DefendAgent_update_counters st0 g = Some (Inr st) \<and> initial_actions st = []
        \<and> enemy_in_our_field g (enemy_positions g) = Some e
        \<and> 0 < turns_with_capsule_effect st"
  then have en: "enemy_in_our_field g (enemy_positions g) = Some e" by simp
  from enemy_in_our_field_Some [OF en]
  show "Some e \<in> set (enemy_positions g)" "in_our_field g e" by simp_all
  from a show "DefendAgent_choose_action st0 g =
            (if turns_with_capsule_effect st < maze_distance g (get_our_position g) e
             then pursue st g e else do_vertical_patrol st g)"
    by (simp add: DefendAgent_choose_action_def decide_action_enemy_close_in_our_field_def)
next
  show "pursue st g e =
       (case aStarSearch (legal_actions_own g) (DefendAgent_heuristic g) (get_our_position g)
               (Some e) of
          None \<Rightarrow> None
        | Some NoPath \<Rightarrow> Some (Inl ValueError)
        | Some (Found p []) \<Rightarrow> Some (Inl IndexError)
        | Some (Found p (a # as)) \<Rightarrow> Some (Inr (st, a)))"
    by (rule pursue_unfold)
qed

theorem defender_pursues_iff_effect_shorter_than_distance_witness:
  "DefendAgent_update_counters (defender_on_patrol 4) (env_intruder (2, 1) (5, 1))
     = Some (Inr (defender_on_patrol 3))
   \<and> enemy_in_our_field (env_intruder (2, 1) (5, 1))
        (enemy_positions (env_intruder (2, 1) (5, 1))) = Some (5, 1)
   \<and> maze_distance (env_intruder (2, 1) (5, 1))
        (get_our_position (env_intruder (2, 1) (5, 1))) (5, 1) = 3
   \<and> DefendAgent_choose_action (defender_on_patrol 4) (env_intruder (2, 1) (5, 1))
       = Some (Inr (defender_on_patrol 3, West))
   \<and> do_vertical_patrol (defender_on_patrol 3) (env_intruder (2, 1) (5, 1))
       = Some (Inr (defender_on_patrol 3, West))
   \<and> pursue (defender_on_patrol 3) (env_intruder (2, 1) (5, 1)) (5, 1)
       = Some (Inr (defender_on_patrol 3, East))"
proof -
  let ?g = "env_intruder (2, 1) (5, 1)"
  have u: "DefendAgent_update_counters (defender_on_patrol 4) ?g
             = Some (Inr (defender_on_patrol 3))"
    by code_simp
  have i: "initial_actions (defender_on_patrol 3) = []" by code_simp
  have e: "enemy_in_our_field ?g (enemy_positions ?g) = Some (5, 1)" by code_simp
  have t: "turns_with_capsule_effect (defender_on_patrol 3) = 3" by code_simp
  have d: "maze_distance ?g (get_our_position ?g) (5, 1) = 3" by code_simp
  have v: "do_vertical_patrol (defender_on_patrol 3) ?g
             = Some (Inr (defender_on_patrol 3, West))"
    by code_simp
  have p: "pursue (defender_on_patrol 3) ?g (5, 1) = Some (Inr (defender_on_patrol 3, East))"
    by code_simp
  note th = defender_pursues_iff_effect_shorter_than_distance
      [of "defender_on_patrol 3" "(5, 1)" ?g "defender_on_patrol 4"]
  from th u i e t d v have c: "DefendAgent_choose_action (defender_on_patrol 4) ?g
       = Some (Inr (defender_on_patrol 3, West))"
    by simp
  from u e d c v p show ?thesis by simp
qed

text \<open>
  C6, as stated, fails: with the counter at 2 and the intruder at maze distance 5 the
  defender pursues (East, towards the intruder) and does not patrol (West, towards the
  patrol point); with the counter at 6 and the intruder at distance 2 it patrols.
\<close>

theorem defender_scenario_counterexample:
  "maze_distance (env_intruder (2, 1) (7, 1)) (get_our_position (env_intruder (2, 1) (7, 1)))
       (7, 1) = 5
   \<and> in_our_field (env_intruder (2, 1) (7, 1)) (7, 1)
   \<and> turns_with_capsule_effect (defender_on_patrol 2) = 2
   \<and> do_vertical_patrol (defender_on_patrol 2) (env_intruder (2, 1) (7, 1))
        = Some (Inr (defender_on_patrol 2, West))
   \<and> decide_action_enemy_close_in_our_field (defender_on_patrol 2) (7, 1)
        (env_intruder (2, 1) (7, 1)) = Some (Inr (defender_on_patrol 2, East))
   \<and> maze_distance (env_intruder (2, 1) (4, 1)) (get_our_position (env_intruder (2, 1) (4, 1)))
       (4, 1) = 2
   \<and> in_our_field (env_intruder (2, 1) (4, 1)) (4, 1)
   \<and> turns_with_capsule_effect (defender_on_patrol 6) = 6
   \<and> pursue (defender_on_patrol 6) (env_intruder (2, 1) (4, 1)) (4, 1)
        = Some (Inr (defender_on_patrol 6, East))
   \<and> decide_action_enemy_close_in_our_field (defender_on_patrol 6) (4, 1)
        (env_intruder (2, 1) (4, 1)) = Some (Inr (defender_on_patrol 6, West))"
  by code_simp

text \<open>
  C6, amended: with the power-up counter at 2 and the intruder at maze distance 5 the
  defender pursues; with the counter at 6 and the intruder at distance 2 it falls back
  to the vertical patrol.
\<close>

theorem defender_scenario:
  "(turns_with_capsule_effect st = 2 \<and> maze_distance g (get_our_position g) e = 5 \<longrightarrow>
      decide_action_enemy_close_in_our_field st e g = pursue st g e)
   \<and> (turns_with_capsule_effect st = 6 \<and> maze_distance g (get_our_position g) e = 2 \<longrightarrow>
        decide_action_enemy_close_in_our_field st e g = do_vertical_patrol st g)"
  by (simp add: decide_action_enemy_close_in_our_field_def)

theorem defender_scenario_witness:
  "turns_with_capsule_effect (defender_on_patrol 2) = 2
   \<and> maze_distance (env_intruder (1, 1) (6, 1)) (get_our_position (env_intruder (1, 1) (6, 1)))
        (6, 1) = 5
   \<and> decide_action_enemy_close_in_our_field (defender_on_patrol 2) (6, 1)
        (env_intruder (1, 1) (6, 1))
      = pursue (defender_on_patrol 2) (env_intruder (1, 1) (6, 1)) (6, 1)
   \<and> pursue (defender_on_patrol 2) (env_intruder (1, 1) (6, 1)) (6, 1)
      = Some (Inr (defender_on_patrol 2, East))
   \<and> turns_with_capsule_effect (defender_on_patrol 6) = 6
   \<and> maze_distance (env_intruder (3, 1) (5, 1)) (get_our_position (env_intruder (3, 1) (5, 1)))
        (5, 1) = 2
   \<and> decide_action_enemy_close_in_our_field (defender_on_patrol 6) (5, 1)
        (env_intruder (3, 1) (5, 1))
      = do_vertical_patrol (defender_on_patrol 6) (env_intruder (3, 1) (5, 1))
   \<and> do_vertical_patrol (defender_on_patrol 6) (env_intruder (3, 1) (5, 1))
      = Some (Inr (defender_on_patrol 6, West))"
proof -
  have t: "turns_with_capsule_effect (defender_on_patrol 2) = 2"
    "turns_with_capsule_effect (defender_on_patrol 6) = 6"
    by (simp_all add: defender_on_patrol_def)
  have d: "maze_distance (env_intruder (1, 1) (6, 1))
             (get_our_position (env_intruder (1, 1) (6, 1))) (6, 1) = 5"
    "maze_distance (env_intruder (3, 1) (5, 1))
             (get_our_position (env_intruder (3, 1) (5, 1))) (5, 1) = 2"
    by code_simp+
  have p: "pursue (defender_on_patrol 2) (env_intruder (1, 1) (6, 1)) (6, 1)
      = Some (Inr (defender_on_patrol 2, East))"
    by code_simp
  have v: "do_vertical_patrol (defender_on_patrol 6) (env_intruder (3, 1) (5, 1))
      = Some (Inr (defender_on_patrol 6, West))"
    by code_simp
  from defender_scenario [of "defender_on_patrol 2" "env_intruder (1, 1) (6, 1)" "(6, 1)"]
    defender_scenario [of "defender_on_patrol 6" "env_intruder (3, 1) (5, 1)" "(5, 1)"]
    t d p v
  show ?thesis by simp
qed

end
